theory Spec2Isabelle
  imports Main
begin

section \<open>Data model\<close>

text \<open>
  The driver of \<^verbatim>\<open>src/packages/driver.trino/src/ls/driver.ts\<close> adapts the host's
  requests to the engine client. Everything the driver only consumes (the engine client, the
  identifier generator, the base driver's helpers, the statement parser) is a parameter of the
  model; what the driver itself does is a definition.

  An error object is a JavaScript error as the engine client and the runtime deliver it:
  it carries a text (\<open>message\<close>) and further fields, here the engine's error code.
\<close>

record error =
  message :: string
  errorCode :: int

text \<open>
  \<^verbatim>\<open>types.ts\<close>: a column descriptor (\<open>data_type\<close> is its field \<^verbatim>\<open>type\<close>), a row
  keyed by column name, a query result. A row is a plain JavaScript object; the map is that
  of its own keys.
\<close>

record column =
  name :: string
  data_type :: string

type_synonym 'v Row = "string \<rightharpoonup> 'v"

type_synonym 'v Rows = "'v Row list"

type_synonym Columns = "column list"

type_synonym 'v QueryResult = "string \<times> 'v Rows \<times> Columns"

text \<open>The stored credentials; \<open>password\<close> may be absent.\<close>

record credentials =
  host :: string
  port :: nat
  catalog :: string
  schema :: string
  user :: string
  password :: "string option"

text \<open>
  The object \<^verbatim>\<open>connOptions\<close> built in \<^verbatim>\<open>open\<close>; \<open>basic_auth\<close> is the optional
  pair of user and password.
\<close>

record connOptions =
  o_host :: string
  o_port :: nat
  o_catalog :: string
  o_schema :: string
  o_user :: string
  engine :: string
  source :: string
  basic_auth :: "(string \<times> string) option"

text \<open>
  A client handle is an object: \<open>client_id\<close> is its identity (the number of client objects
  constructed before it), so two handles are the same instance iff they are equal.
\<close>

record client =
  client_id :: nat
  options :: connOptions

text \<open>
  The driver object: its credentials, its identifier, the memoized connection
  (\<open>None\<close> is \<^verbatim>\<open>null\<close>) and the count of client objects constructed so far.
\<close>

record driver =
  creds :: credentials
  driver_id :: string
  connection :: "client option"
  constructed :: nat

text \<open>How a promise ends, as its awaiter sees it.\<close>

datatype 'a outcome =
    Resolves 'a
  | Rejects error
  | Hangs
  | Escapes

text \<open>
  \<open>Hangs\<close>: the promise is never settled (the engine never calls back).
  \<open>Escapes\<close>: a callback of the driver threw into the engine client, whose reaction is
  outside the driver.
\<close>

section \<open>Connection wrapper\<close>

text \<open>
  The options object of \<^verbatim>\<open>open\<close>. \<^verbatim>\<open>if (this.credentials.password)\<close> tests
  JavaScript truthiness: an absent password and the empty string are both falsy.
\<close>

definition mkConnOptions :: "credentials \<Rightarrow> connOptions" where
  "mkConnOptions c =
     (let connOptions =
        \<lparr>o_host = host c, o_port = port c, o_catalog = catalog c, o_schema = schema c,
         o_user = user c, engine = ''trino'', source = ''sqltools-driver'',
         basic_auth = None\<rparr>
      in case password c of
           None \<Rightarrow> connOptions
         | Some p \<Rightarrow>
             if p \<noteq> [] then connOptions\<lparr>basic_auth := Some (user c, p)\<rparr> else connOptions)"

text \<open>
  \<^verbatim>\<open>open\<close>. The constructor of the engine client is the parameter \<open>new_Client\<close>:
  \<open>Some e\<close> when it throws \<open>e\<close> on these options, \<open>None\<close> when it returns an object.
  The result is the awaited value of the promise \<^verbatim>\<open>open\<close> returns (\<open>Inl\<close> a rejection)
  and the driver afterwards.
\<close>

definition "open" :: "(connOptions \<Rightarrow> error option) \<Rightarrow> driver \<Rightarrow> (error + client) \<times> driver" where
  "open new_Client d =
     (case connection d of
        Some conn \<Rightarrow> (Inr conn, d)
      | None \<Rightarrow>
          (let connOptions = mkConnOptions (creds d)
           in case new_Client connOptions of
                Some e \<Rightarrow> (Inl e, d)
              | None \<Rightarrow>
                  (let conn = \<lparr>client_id = constructed d, options = connOptions\<rparr>
                   in (Inr conn, d\<lparr>connection := Some conn, constructed := Suc (constructed d)\<rparr>))))"

text \<open>
  \<^verbatim>\<open>close\<close>. The memoized promise is always a resolved one (\<^verbatim>\<open>Promise.resolve(conn)\<close>),
  so awaiting it returns; then the reference is set to \<^verbatim>\<open>null\<close>.
\<close>

definition close :: "driver \<Rightarrow> (error + unit) \<times> driver" where
  "close d =
     (case connection d of
        None \<Rightarrow> (Inr (), d)
      | Some conn \<Rightarrow> (Inr (), d\<lparr>connection := None\<rparr>))"

definition getId :: "driver \<Rightarrow> string" where
  "getId d = driver_id d"

section \<open>Query execution\<close>

text \<open>
  What the engine client does with one \<^verbatim>\<open>db.execute({query, data, callback})\<close>:
  it throws at once, or it calls \<^verbatim>\<open>data\<close> once per batch (with an error, or with
  raw rows and the column descriptors) and then \<^verbatim>\<open>callback\<close> at most once
  (\<open>None\<close>: never; \<open>Some None\<close>: without error; \<open>Some (Some e)\<close>: with error \<open>e\<close>).
\<close>

datatype 'v batch = Batch "error option" "'v list list" Columns

datatype 'v engine_run =
    Throws error
  | Calls "'v batch list" "error option option"

datatype 'a promise_state =
    Pending
  | Fulfilled 'a
  | Rejected error

text \<open>
  The variables the two callbacks of \<^verbatim>\<open>executeQuery\<close> close over: the arrays
  \<^verbatim>\<open>results\<close> and \<^verbatim>\<open>cols\<close>, and the promise that \<^verbatim>\<open>resolve\<close> and
  \<^verbatim>\<open>reject\<close> settle.
\<close>

record 'v closure =
  var_results :: "'v Rows"
  var_cols :: Columns
  promise :: "'v QueryResult promise_state"

definition pending :: "'a promise_state \<Rightarrow> bool" where
  "pending p = (case p of Pending \<Rightarrow> True | Fulfilled _ \<Rightarrow> False | Rejected _ \<Rightarrow> False)"

text \<open>Only the first call of \<^verbatim>\<open>resolve\<close> or \<^verbatim>\<open>reject\<close> settles a promise.\<close>

definition resolve :: "'v QueryResult \<Rightarrow> 'v closure \<Rightarrow> 'v closure" where
  "resolve r st = (if pending (promise st) then st\<lparr>promise := Fulfilled r\<rparr> else st)"

definition reject :: "error \<Rightarrow> 'v closure \<Rightarrow> 'v closure" where
  "reject e st = (if pending (promise st) then st\<lparr>promise := Rejected e\<rparr> else st)"

text \<open>
  The assignment \<^verbatim>\<open>data[key] = value\<close> on a row, which \<^verbatim>\<open>const data = {}\<close> has
  created as a plain object. The name \<^verbatim>\<open>__proto__\<close> is the accessor the object inherits
  from \<^verbatim>\<open>Object.prototype\<close>: assigning to it runs the inherited setter and gives the
  object no own key. Every other name becomes an own key with the value.
\<close>

definition set_property :: "'v Row \<Rightarrow> string \<Rightarrow> 'v \<Rightarrow> 'v Row" where
  "set_property data key v = (if key = ''__proto__'' then data else data(key \<mapsto> v))"

text \<open>
  \<^verbatim>\<open>row.forEach((value, idx) => (data[columns[idx].name] = value))\<close>.
  Where the row is longer than \<^verbatim>\<open>columns\<close>, \<^verbatim>\<open>columns[idx]\<close> is undefined and
  reading its \<^verbatim>\<open>name\<close> throws a TypeError: the result \<open>None\<close>.
\<close>

fun row_forEach :: "Columns \<Rightarrow> 'v list \<Rightarrow> nat \<Rightarrow> 'v Row \<Rightarrow> 'v Row option" where
  "row_forEach columns [] idx data = Some data"
| "row_forEach columns (v # row) idx data =
     (if idx < length columns
      then row_forEach columns row (Suc idx) (set_property data (name (columns ! idx)) v)
      else None)"

text \<open>\<^verbatim>\<open>rows.forEach((row) => { const data = {}; ...; results.push(data) })\<close>.\<close>

fun rows_forEach :: "Columns \<Rightarrow> 'v list list \<Rightarrow> 'v Rows \<Rightarrow> 'v Rows option" where
  "rows_forEach columns [] results = Some results"
| "rows_forEach columns (row # rows) results =
     (case row_forEach columns row 0 Map.empty of
        None \<Rightarrow> None
      | Some data \<Rightarrow> rows_forEach columns rows (results @ [data]))"

text \<open>The data callback; \<open>None\<close> when it throws.\<close>

definition onData ::
  "error option \<Rightarrow> 'v list list \<Rightarrow> Columns \<Rightarrow> 'v closure \<Rightarrow> 'v closure option" where
  "onData err rows columns st =
     (case err of
        Some e \<Rightarrow> Some (reject e st)
      | None \<Rightarrow>
          (case rows_forEach columns rows (var_results st) of
             None \<Rightarrow> None
           | Some results \<Rightarrow> Some (st\<lparr>var_cols := columns, var_results := results\<rparr>)))"

text \<open>The completion callback.\<close>

definition callback :: "string \<Rightarrow> error option \<Rightarrow> 'v closure \<Rightarrow> 'v closure" where
  "callback query err st =
     (case err of
        Some e \<Rightarrow> reject e st
      | None \<Rightarrow> resolve (query, var_results st, var_cols st) st)"

text \<open>
  The engine client calling \<^verbatim>\<open>data\<close> batch after batch. An exception thrown by the
  callback while the promise is pending leaves the driver (\<open>None\<close>); once the promise is
  settled, nothing the callbacks do changes what the awaiter sees.
\<close>

fun deliver :: "'v batch list \<Rightarrow> 'v closure \<Rightarrow> 'v closure option" where
  "deliver [] st = Some st"
| "deliver (Batch err rows columns # bs) st =
     (case onData err rows columns st of
        None \<Rightarrow> (if pending (promise st) then None else Some st)
      | Some st' \<Rightarrow> deliver bs st')"

definition settle :: "string \<Rightarrow> 'v engine_run \<Rightarrow> 'v QueryResult outcome" where
  "settle query run =
     (case run of
        Throws e \<Rightarrow> Rejects e
      | Calls batches completion \<Rightarrow>
          (case deliver batches \<lparr>var_results = [], var_cols = [], promise = Pending\<rparr> of
             None \<Rightarrow> Escapes
           | Some st \<Rightarrow>
               (case promise (case completion of None \<Rightarrow> st | Some err \<Rightarrow> callback query err st) of
                  Pending \<Rightarrow> Hangs
                | Fulfilled r \<Rightarrow> Resolves r
                | Rejected e \<Rightarrow> Rejects e)))"

text \<open>
  \<^verbatim>\<open>executeQuery\<close>. The engine is the parameter \<open>execute\<close>: from the state \<open>w\<close> of
  the world outside the driver, the handle and the statement, it gives its run and the
  world afterwards. An exception of \<^verbatim>\<open>db.execute\<close> inside the promise's executor
  rejects the promise.
\<close>

definition executeQuery ::
  "('w \<Rightarrow> client \<Rightarrow> string \<Rightarrow> 'v engine_run \<times> 'w) \<Rightarrow> 'w \<Rightarrow> client \<Rightarrow> string
     \<Rightarrow> 'v QueryResult outcome \<times> 'w" where
  "executeQuery execute w db query =
     (case execute w db query of (run, w') \<Rightarrow> (settle query run, w'))"

section \<open>Result translation\<close>

text \<open>
  What \<^verbatim>\<open>query\<close> consumes from outside the driver file: the constructor of the engine
  client, the engine's \<^verbatim>\<open>execute\<close>, the identifier generator (it changes the world:
  it draws random bits), the base driver's \<^verbatim>\<open>prepareMessage\<close> and the statement
  parser \<^verbatim>\<open>QueryParser.statements\<close>.
\<close>

record ('w, 'v, 'm) deps =
  presto_Client :: "connOptions \<Rightarrow> error option"
  execute :: "'w \<Rightarrow> client \<Rightarrow> string \<Rightarrow> 'v engine_run \<times> 'w"
  generateId :: "'w \<Rightarrow> string \<times> 'w"
  prepareMessage :: "string \<Rightarrow> 'm"
  statements :: "string \<Rightarrow> string list"

text \<open>
  The host result record \<^verbatim>\<open>NSDatabase.IResult\<close>, with the fields the driver writes.
  \<open>r_query\<close> is its field \<^verbatim>\<open>query\<close>; \<open>error\<close> and \<open>rawError\<close> are \<open>None\<close> where
  the object literal leaves them out.
\<close>

record ('v, 'm) IResult =
  requestId :: "string option"
  resultId :: string
  connId :: string
  cols :: "string list"
  results :: "'v Rows"
  messages :: "'m list"
  r_query :: string
  error :: "bool option"
  rawError :: "error option"

text \<open>A number in a template literal: its decimal digits.\<close>

definition digit :: "nat \<Rightarrow> char" where
  "digit n = ''0123456789'' ! n"

function toString :: "nat \<Rightarrow> string" where
  "toString n = (if n < 10 then [digit n] else toString (n div 10) @ [digit (n mod 10)])"
  by pat_completeness auto
termination
  by (relation "measure id") auto

declare toString.simps [simp del]

text \<open>\<^verbatim>\<open>.filter(Boolean)\<close> on strings keeps the non-empty ones; \<^verbatim>\<open>.join(sep)\<close>.\<close>

definition Boolean :: "string \<Rightarrow> bool" where
  "Boolean s = (s \<noteq> [])"

fun join :: "string \<Rightarrow> string list \<Rightarrow> string" where
  "join sep [] = []"
| "join sep [s] = s"
| "join sep (s # t # ss) = s @ sep @ join sep (t # ss)"

text \<open>\<^verbatim>\<open>.replace(/\n/g, " ")\<close>: every line feed becomes a space.\<close>

definition replace_newlines :: "string \<Rightarrow> string" where
  "replace_newlines s = map (\<lambda>c. if c = CHR 0x0A then CHR '' '' else c) s"

text \<open>The handler given to \<^verbatim>\<open>.then\<close>: the record of a statement that succeeded.\<close>

definition onFulfilled ::
  "('w, 'v, 'm) deps \<Rightarrow> driver \<Rightarrow> string option \<Rightarrow> 'v QueryResult \<Rightarrow> 'w
     \<Rightarrow> ('v, 'm) IResult \<times> 'w" where
  "onFulfilled D d rid result w =
     (case result of (q, rows, columns) \<Rightarrow>
        (case generateId D w of (uuid, w') \<Rightarrow>
           (\<lparr>requestId = rid,
             resultId = uuid,
             connId = getId d,
             cols = map name columns,
             results = rows,
             messages =
               [prepareMessage D
                  (join '' ''
                     (filter Boolean
                        [''Successfully executed. '' @ toString (length rows)
                           @ '' rows were affected.'']))],
             r_query = q,
             error = None,
             rawError = None\<rparr>, w')))"

text \<open>The handler given to \<^verbatim>\<open>.catch\<close>: the record of a statement that failed.\<close>

definition onRejected ::
  "('w, 'v, 'm) deps \<Rightarrow> driver \<Rightarrow> string option \<Rightarrow> string \<Rightarrow> error \<Rightarrow> 'w
     \<Rightarrow> ('v, 'm) IResult \<times> 'w" where
  "onRejected D d rid query err w =
     (case generateId D w of (uuid, w') \<Rightarrow>
        (\<lparr>requestId = rid,
          resultId = uuid,
          connId = getId d,
          cols = [],
          results = [],
          messages =
            [prepareMessage D (join '' '' (filter Boolean [replace_newlines (message err)]))],
          r_query = query,
          error = Some True,
          rawError = Some err\<rparr>, w'))"

text \<open>
  The body of the loop of \<^verbatim>\<open>query\<close>:
  \<^verbatim>\<open>await this.executeQuery(db, q).then(...).catch(...)\<close> for one statement \<open>q\<close> of the
  submitted text \<open>query\<close>.
\<close>

definition iresult ::
  "('w, 'v, 'm) deps \<Rightarrow> driver \<Rightarrow> client \<Rightarrow> string option \<Rightarrow> string \<Rightarrow> string \<Rightarrow> 'w
     \<Rightarrow> ('v, 'm) IResult outcome \<times> 'w" where
  "iresult D d db rid query q w =
     (case executeQuery (execute D) w db q of
        (Resolves result, w1) \<Rightarrow>
          (case onFulfilled D d rid result w1 of (r, w2) \<Rightarrow> (Resolves r, w2))
      | (Rejects err, w1) \<Rightarrow>
          (case onRejected D d rid query err w1 of (r, w2) \<Rightarrow> (Resolves r, w2))
      | (Hangs, w1) \<Rightarrow> (Hangs, w1)
      | (Escapes, w1) \<Rightarrow> (Escapes, w1))"

text \<open>The loop \<^verbatim>\<open>for (const q of QueryParser.statements(query))\<close>.\<close>

fun query_loop ::
  "('w, 'v, 'm) deps \<Rightarrow> driver \<Rightarrow> client \<Rightarrow> string option \<Rightarrow> string \<Rightarrow> string list
     \<Rightarrow> ('v, 'm) IResult list \<Rightarrow> 'w \<Rightarrow> ('v, 'm) IResult list outcome \<times> 'w" where
  "query_loop D d db rid query [] resultsAgg w = (Resolves resultsAgg, w)"
| "query_loop D d db rid query (q # qs) resultsAgg w =
     (case iresult D d db rid query q w of
        (Resolves r, w') \<Rightarrow> query_loop D d db rid query qs (resultsAgg @ [r]) w'
      | (Rejects e, w') \<Rightarrow> (Rejects e, w')
      | (Hangs, w') \<Rightarrow> (Hangs, w')
      | (Escapes, w') \<Rightarrow> (Escapes, w'))"

text \<open>
  \<^verbatim>\<open>query\<close>: the outcome of the promise it returns, the driver and the world afterwards.
  \<open>rid\<close> is \<^verbatim>\<open>opt.requestId\<close>. A rejection of \<^verbatim>\<open>await this.open()\<close> rejects it.
\<close>

definition query ::
  "('w, 'v, 'm) deps \<Rightarrow> driver \<Rightarrow> string \<Rightarrow> string option \<Rightarrow> 'w
     \<Rightarrow> ('v, 'm) IResult list outcome \<times> driver \<times> 'w" where
  "query D d query_text rid w =
     (case open (presto_Client D) d of
        (Inl e, d') \<Rightarrow> (Rejects e, d', w)
      | (Inr db, d') \<Rightarrow>
          (case query_loop D d' db rid query_text (statements D query_text) [] w of
             (out, w') \<Rightarrow> (out, d', w')))"

text \<open>
  A batch as an engine that keeps to its own column list delivers it: its descriptors carry
  the column names \<open>ns\<close>, and each raw row has one value per descriptor.
\<close>

definition uniform :: "string list \<Rightarrow> 'v batch \<Rightarrow> bool" where
  "uniform ns b =
     (case b of Batch err rows columns \<Rightarrow>
        map name columns = ns \<and> list_all (\<lambda>row. length row = length columns) rows)"

text \<open>An outcome the awaiter gets to see: the promise was fulfilled or rejected.\<close>

definition settles :: "'a outcome \<Rightarrow> bool" where
  "settles out = (case out of Resolves _ \<Rightarrow> True | Rejects _ \<Rightarrow> True | Hangs \<Rightarrow> False | Escapes \<Rightarrow> False)"

text \<open>
  The world in which the loop of \<^verbatim>\<open>query\<close> executes the statement of index \<open>i\<close>: the
  one the loop has left after the \<open>i\<close> statements before it.
\<close>

definition world_at ::
  "('w, 'v, 'm) deps \<Rightarrow> driver \<Rightarrow> client \<Rightarrow> string option \<Rightarrow> string \<Rightarrow> string list
     \<Rightarrow> nat \<Rightarrow> 'w \<Rightarrow> 'w" where
  "world_at D d db rid query_text stmts i w =
     snd (query_loop D d db rid query_text (take i stmts) [] w)"

section \<open>Explorer adapter\<close>

text \<open>The host's enumeration \<^verbatim>\<open>ContextValue\<close> of item tags.\<close>

datatype ContextValue =
    CONNECTION
  | CONNECTED_CONNECTION
  | COLUMN
  | FUNCTION
  | SCHEMA
  | RESOURCE_GROUP
  | TABLE
  | VIEW
  | DATABASE
  | MATERIALIZED_VIEW
  | NO_CHILD
  | KEYWORD

text \<open>An item of the explorer tree, with the fields the driver reads and writes.\<close>

record IChildItem =
  label :: string
  type :: ContextValue
  iconId :: "string option"
  childType :: "ContextValue option"

text \<open>
  The catalog requests \<^verbatim>\<open>queries.fetchSchemas\<close>, \<^verbatim>\<open>queries.fetchColumns\<close>,
  \<^verbatim>\<open>queries.fetchTables\<close> and \<^verbatim>\<open>queries.fetchViews\<close> with their argument; running one
  (\<^verbatim>\<open>this.queryResults\<close> of the base driver) is a parameter of the functions below.
\<close>

datatype catalog_query =
    fetchSchemas string
  | fetchColumns IChildItem
  | fetchTables "IChildItem option"
  | fetchViews "IChildItem option"

definition getChildrenForGroup ::
  "(catalog_query \<Rightarrow> IChildItem list outcome) \<Rightarrow> IChildItem option \<Rightarrow> IChildItem
     \<Rightarrow> IChildItem list outcome" where
  "getChildrenForGroup queryResults parent item =
     (case childType item of
        Some TABLE \<Rightarrow> queryResults (fetchTables parent)
      | Some VIEW \<Rightarrow> queryResults (fetchViews parent)
      | _ \<Rightarrow> Resolves [])"

definition getChildrenForItem ::
  "(catalog_query \<Rightarrow> IChildItem list outcome) \<Rightarrow> driver \<Rightarrow> IChildItem \<Rightarrow> IChildItem option
     \<Rightarrow> IChildItem list outcome" where
  "getChildrenForItem queryResults d item parent =
     (case type item of
        CONNECTION \<Rightarrow> queryResults (fetchSchemas (catalog (creds d)))
      | CONNECTED_CONNECTION \<Rightarrow> queryResults (fetchSchemas (catalog (creds d)))
      | SCHEMA \<Rightarrow>
          Resolves
            [\<lparr>label = ''Tables'', type = RESOURCE_GROUP, iconId = Some ''folder'',
              childType = Some TABLE\<rparr>,
             \<lparr>label = ''Views'', type = RESOURCE_GROUP, iconId = Some ''folder'',
              childType = Some VIEW\<rparr>]
      | TABLE \<Rightarrow> queryResults (fetchColumns item)
      | VIEW \<Rightarrow> queryResults (fetchColumns item)
      | RESOURCE_GROUP \<Rightarrow> getChildrenForGroup queryResults parent item
      | _ \<Rightarrow> Resolves [])"

section \<open>Statement parser\<close>

text \<open>
  The parser \<^verbatim>\<open>QueryParser.statements\<close> lives in \<^verbatim>\<open>parser.ts\<close>, which is not among
  the sources at hand. \<^verbatim>\<open>query\<close> above takes it as the parameter \<open>statements\<close>. The
  definitions of this section follow the specification's contract for it: split the text at
  the semicolons that are outside string literals, quoted identifiers and comments, trim
  each part and drop the empty ones.
\<close>

text \<open>
  Modelled from the spec: the lexical position of the scanner of \<^verbatim>\<open>parser.ts\<close>.
  \<open>Dash\<close> and \<open>Slash\<close>: in code, after a \<^verbatim>\<open>-\<close> or a \<^verbatim>\<open>/\<close> that may open a comment;
  \<open>BlockStar\<close>: in a block comment, after a \<^verbatim>\<open>*\<close> that may close it.
\<close>

datatype lex_mode =
    Code
  | Dash
  | Slash
  | SingleQuoted
  | DoubleQuoted
  | LineComment
  | BlockComment
  | BlockStar

text \<open>
  Modelled from the spec: \<open>in_code m\<close> holds where the scanner of \<^verbatim>\<open>parser.ts\<close> is
  outside every literal and comment.
\<close>

definition in_code :: "lex_mode \<Rightarrow> bool" where
  "in_code m = (m = Code \<or> m = Dash \<or> m = Slash)"

text \<open>
  Modelled from the spec: the position of the scanner of \<^verbatim>\<open>parser.ts\<close> after reading
  the character \<open>c\<close>. A doubled quote inside a literal closes and reopens it.
\<close>

definition lex_step :: "lex_mode \<Rightarrow> char \<Rightarrow> lex_mode" where
  "lex_step m c =
     (if in_code m then
        (if c = CHR 0x27 then SingleQuoted
         else if c = CHR 0x22 then DoubleQuoted
         else if c = CHR ''-'' then (if m = Dash then LineComment else Dash)
         else if c = CHR ''*'' \<and> m = Slash then BlockComment
         else if c = CHR ''/'' then Slash
         else Code)
      else if m = SingleQuoted then (if c = CHR 0x27 then Code else SingleQuoted)
      else if m = DoubleQuoted then (if c = CHR 0x22 then Code else DoubleQuoted)
      else if m = LineComment then (if c = CHR 0x0A then Code else LineComment)
      else if c = CHR ''*'' then BlockStar
      else if c = CHR ''/'' \<and> m = BlockStar then Code
      else BlockComment)"

text \<open>
  Modelled from the spec: the semicolons at which \<^verbatim>\<open>parser.ts\<close> separates
  statements, those outside literals and comments.
\<close>

definition separates :: "lex_mode \<Rightarrow> char \<Rightarrow> bool" where
  "separates m c = (in_code m \<and> c = CHR '';'')"

text \<open>
  Modelled from the spec: the parts into which the separating semicolons cut the text that
  \<^verbatim>\<open>parser.ts\<close> is given, the semicolons left out.
\<close>

fun pieces :: "lex_mode \<Rightarrow> string \<Rightarrow> string list" where
  "pieces m [] = [[]]"
| "pieces m (c # cs) =
     (if separates m c then [] # pieces Code cs
      else (case pieces (lex_step m c) cs of
              [] \<Rightarrow> [[c]]
            | p # ps \<Rightarrow> (c # p) # ps))"

text \<open>
  Modelled from the spec: the white space that \<^verbatim>\<open>parser.ts\<close> trims from a statement
  (space, tab, line feed, vertical tab, form feed, carriage return).
\<close>

definition whitespace :: "char \<Rightarrow> bool" where
  "whitespace c = (c = CHR '' '' \<or> c = CHR 0x09 \<or> c = CHR 0x0A \<or> c = CHR 0x0B
                   \<or> c = CHR 0x0C \<or> c = CHR 0x0D)"

text \<open>Modelled from the spec: trimming a statement of \<^verbatim>\<open>parser.ts\<close> at both ends.\<close>

definition trim :: "string \<Rightarrow> string" where
  "trim s = dropWhile whitespace (rev (dropWhile whitespace (rev s)))"

text \<open>
  Modelled from the spec: \<^verbatim>\<open>QueryParser.statements\<close> of \<^verbatim>\<open>parser.ts\<close>, the trimmed,
  non-empty parts in their order.
\<close>

definition QueryParser_statements :: "string \<Rightarrow> string list" where
  "QueryParser_statements query_text =
     filter (\<lambda>s. s \<noteq> []) (map trim (pieces Code query_text))"

text \<open>
  Modelled from the spec: the number of semicolons of a text that are outside literals and
  comments, as \<^verbatim>\<open>parser.ts\<close> reads it from the position \<open>m\<close>.
\<close>

fun separators :: "lex_mode \<Rightarrow> string \<Rightarrow> nat" where
  "separators m [] = 0"
| "separators m (c # cs) =
     (if separates m c then Suc (separators Code cs) else separators (lex_step m c) cs)"

text \<open>
  Modelled from the spec: the position at which the scanner of \<^verbatim>\<open>parser.ts\<close> stands
  after a text, started in the position \<open>m\<close>; a separating semicolon puts it back in code.
\<close>

fun lex_end :: "lex_mode \<Rightarrow> string \<Rightarrow> lex_mode" where
  "lex_end m [] = m"
| "lex_end m (c # cs) = lex_end (if separates m c then Code else lex_step m c) cs"

section \<open>Example values\<close>

text \<open>A driver that was never opened, and an error a constructor or the engine may deliver.\<close>

definition example_credentials :: credentials where
  "example_credentials =
     \<lparr>host = ''localhost'', port = 8080, catalog = ''hive'', schema = ''default'',
      user = ''alice'', password = Some ''secret''\<rparr>"

definition example_driver :: driver where
  "example_driver =
     \<lparr>creds = example_credentials, driver_id = ''conn-1'', connection = None, constructed = 0\<rparr>"

definition example_client :: client where
  "example_client = \<lparr>client_id = 0, options = mkConnOptions example_credentials\<rparr>"

definition example_error :: error where
  "example_error = \<lparr>message = ''connect ECONNREFUSED'', errorCode = 111\<rparr>"

text \<open>
  An engine for the examples. It answers \<^verbatim>\<open>SELECT 1\<close> with one batch of one row and a
  completion without error, \<^verbatim>\<open>SELEC\<close> with a completion that carries a syntax error of
  two lines, and any other statement with an error in the data callback and no completion.
  The world counts the calls of the engine and of the identifier generator.
\<close>

definition example_syntax_error :: error where
  "example_syntax_error =
     \<lparr>message = ''line 1:1: mismatched input'' @ [CHR 0x0A] @ ''SELEC'', errorCode = 1\<rparr>"

definition example_execute :: "nat \<Rightarrow> client \<Rightarrow> string \<Rightarrow> nat engine_run \<times> nat" where
  "example_execute w db q =
     (if q = ''SELECT 1''
      then Calls [Batch None [[1]] [\<lparr>name = ''_col0'', data_type = ''integer''\<rparr>]] (Some None)
      else if q = ''SELEC''
      then Calls [] (Some (Some example_syntax_error))
      else Calls [Batch (Some example_error) [] []] None,
      Suc w)"

definition example_text :: string where
  "example_text = ''SELECT 1; SELEC; DROP''"

definition example_deps :: "(nat, nat, string) deps" where
  "example_deps =
     \<lparr>presto_Client = (\<lambda>_. None),
      execute = example_execute,
      generateId = (\<lambda>w. (toString w, Suc w)),
      prepareMessage = (\<lambda>s. s),
      statements = (\<lambda>s. if s = example_text then [''SELECT 1'', ''SELEC'', ''DROP''] else [])\<rparr>"

text \<open>What \<^verbatim>\<open>query\<close> answers on the example text with request identifier \<^verbatim>\<open>req\<close>.\<close>

definition example_records :: "(nat, string) IResult list" where
  "example_records =
     [\<lparr>requestId = Some ''req'', resultId = ''1'', connId = ''conn-1'', cols = [''_col0''],
       results = [[''_col0'' \<mapsto> 1]],
       messages = [''Successfully executed. 1 rows were affected.''],
       r_query = ''SELECT 1'', error = None, rawError = None\<rparr>,
      \<lparr>requestId = Some ''req'', resultId = ''3'', connId = ''conn-1'', cols = [],
       results = [],
       messages = [''line 1:1: mismatched input SELEC''],
       r_query = ''SELECT 1; SELEC; DROP'', error = Some True,
       rawError = Some example_syntax_error\<rparr>,
      \<lparr>requestId = Some ''req'', resultId = ''5'', connId = ''conn-1'', cols = [],
       results = [],
       messages = [''connect ECONNREFUSED''],
       r_query = ''SELECT 1; SELEC; DROP'', error = Some True,
       rawError = Some example_error\<rparr>]"

section \<open>Properties of the connection wrapper\<close>

lemma open_existing: "connection d = Some conn \<Longrightarrow> open new_Client d = (Inr conn, d)"
  by (simp add: open_def)

lemma open_result_memoized:
  "fst (open new_Client d) = Inr h \<Longrightarrow> connection (snd (open new_Client d)) = Some h"
  by (auto simp: open_def Let_def split: option.splits)

lemma open_example_driver:
  "open (\<lambda>_. None) example_driver
     = (Inr example_client, example_driver\<lparr>connection := Some example_client, constructed := 1\<rparr>)"
  by (simp add: open_def Let_def example_driver_def example_client_def)

text \<open>
  C6. \<^verbatim>\<open>open\<close> on a driver that holds a handle returns that handle and leaves the driver
  as it is, the count of constructed clients included, whatever the constructor would do.
  So when a first \<^verbatim>\<open>open\<close> has returned the handle \<open>h\<close>, a second \<^verbatim>\<open>open\<close> returns
  the same \<open>h\<close> and constructs nothing.
\<close>

theorem open_returns_existing_handle:
  "(connection d = Some conn \<longrightarrow> open new_Client d = (Inr conn, d)) \<and>
   (fst (open new_Client d) = Inr h \<longrightarrow>
      open new_Client' (snd (open new_Client d)) = (Inr h, snd (open new_Client d)))"
  using open_existing open_result_memoized by blast

theorem open_returns_existing_handle_witness:
  "fst (open (\<lambda>_. None) example_driver) = Inr example_client \<and>
   connection (snd (open (\<lambda>_. None) example_driver)) = Some example_client \<and>
   open (\<lambda>_. Some example_error) (snd (open (\<lambda>_. None) example_driver))
     = (Inr example_client, snd (open (\<lambda>_. None) example_driver))"
  using open_returns_existing_handle
          [of "snd (open (\<lambda>_. None) example_driver)" example_client "\<lambda>_. None"
              example_client "\<lambda>_. Some example_error"]
        open_returns_existing_handle
          [of example_driver example_client "\<lambda>_. None" example_client
              "\<lambda>_. Some example_error"]
  by (simp add: open_example_driver)

text \<open>
  C7. When the constructor of the engine client throws \<open>e\<close> during \<^verbatim>\<open>open\<close> (which is
  reached only while no handle is memoized), \<^verbatim>\<open>open\<close> rejects with \<open>e\<close> and the driver is
  unchanged, its connection still unset. A later \<^verbatim>\<open>open\<close> calls the constructor again:
  it rejects with what the constructor throws then, or returns the client constructed then.
\<close>

theorem open_constructor_throws:
  "connection d = None \<Longrightarrow> new_Client (mkConnOptions (creds d)) = Some e \<Longrightarrow>
     open new_Client d = (Inl e, d) \<and>
     connection (snd (open new_Client d)) = None \<and>
     fst (open new_Client' (snd (open new_Client d)))
       = (case new_Client' (mkConnOptions (creds d)) of
            Some e' \<Rightarrow> Inl e'
          | None \<Rightarrow> Inr \<lparr>client_id = constructed d, options = mkConnOptions (creds d)\<rparr>)"
  by (simp add: open_def Let_def split: option.splits)

theorem open_constructor_throws_witness:
  "connection example_driver = None \<and>
   open (\<lambda>_. Some example_error) example_driver = (Inl example_error, example_driver) \<and>
   fst (open (\<lambda>_. None) (snd (open (\<lambda>_. Some example_error) example_driver)))
     = Inr example_client"
  using open_constructor_throws
          [of example_driver "\<lambda>_. Some example_error" example_error "\<lambda>_. None"]
  by (simp add: example_driver_def example_client_def open_def Let_def)

text \<open>
  C8. \<^verbatim>\<open>close\<close> on a driver without a handle resolves and leaves the driver as it is.
  On a driver with a handle it resolves and sets the connection to \<^verbatim>\<open>null\<close>, changing
  nothing else; in particular so after a successful \<^verbatim>\<open>open\<close>.
\<close>

theorem close_discards_handle:
  "(connection d = None \<longrightarrow> close d = (Inr (), d)) \<and>
   (connection d = Some conn \<longrightarrow> close d = (Inr (), d\<lparr>connection := None\<rparr>)) \<and>
   (fst (open new_Client d) = Inr h \<longrightarrow>
      close (snd (open new_Client d)) = (Inr (), (snd (open new_Client d))\<lparr>connection := None\<rparr>))"
  using open_result_memoized[of new_Client d h] by (auto simp: close_def)

theorem close_discards_handle_witness:
  "close example_driver = (Inr (), example_driver) \<and>
   close (example_driver\<lparr>connection := Some example_client, constructed := 1\<rparr>)
     = (Inr (), example_driver\<lparr>constructed := 1\<rparr>) \<and>
   close (snd (open (\<lambda>_. None) example_driver))
     = (Inr (), example_driver\<lparr>constructed := 1\<rparr>)"
  using close_discards_handle
          [of example_driver example_client "\<lambda>_. None" example_client]
        close_discards_handle
          [of "example_driver\<lparr>connection := Some example_client, constructed := 1\<rparr>"
              example_client "\<lambda>_. None" example_client]
  by (simp add: open_example_driver) (simp add: example_driver_def)

section \<open>Properties of query execution\<close>

subsection \<open>The promise of one statement\<close>

lemma pending_iff [simp]: "pending p \<longleftrightarrow> p = Pending"
  by (cases p) (simp_all add: pending_def)

lemma reject_not_fulfilled:
  "promise st \<noteq> Fulfilled r \<Longrightarrow> promise (reject e st) \<noteq> Fulfilled r"
  by (simp add: reject_def)

lemma onData_not_fulfilled:
  "onData err rows columns st = Some st' \<Longrightarrow> promise st \<noteq> Fulfilled r
     \<Longrightarrow> promise st' \<noteq> Fulfilled r"
  by (auto simp: onData_def reject_def split: option.splits if_splits)

lemma deliver_not_fulfilled:
  "deliver bs st = Some st' \<Longrightarrow> promise st \<noteq> Fulfilled r \<Longrightarrow> promise st' \<noteq> Fulfilled r"
proof (induction bs st rule: deliver.induct)
  case (1 st)
  then show ?case by simp
next
  case (2 err rows columns bs st)
  then show ?case
    by (auto split: option.splits if_splits dest: onData_not_fulfilled)
qed

lemma settle_Resolves:
  assumes "settle q run = Resolves res"
  shows "\<exists>batches st. run = Calls batches (Some None)
           \<and> deliver batches \<lparr>var_results = [], var_cols = [], promise = Pending\<rparr> = Some st
           \<and> promise st = Pending
           \<and> res = (q, var_results st, var_cols st)"
proof (cases run)
  case (Throws e)
  with assms show ?thesis by (simp add: settle_def)
next
  case (Calls batches completion)
  let ?init = "\<lparr>var_results = [], var_cols = [], promise = Pending\<rparr> :: 'a closure"
  from assms Calls obtain st where st: "deliver batches ?init = Some st"
    by (auto simp: settle_def split: option.splits)
  have nf: "\<And>r. promise st \<noteq> Fulfilled r"
    using deliver_not_fulfilled[OF st] by simp
  show ?thesis
  proof (cases completion)
    case None
    with assms Calls st nf[of res] show ?thesis
      by (auto simp: settle_def split: promise_state.splits)
  next
    case (Some err)
    show ?thesis
    proof (cases err)
      case None
      with assms Calls st nf[of res] Some show ?thesis
        by (cases "promise st") (auto simp: settle_def callback_def resolve_def split: promise_state.splits if_splits)
    next
      case (Some e)
      with assms Calls st nf[of res] \<open>completion = Some err\<close> show ?thesis
        by (cases "promise st") (auto simp: settle_def callback_def reject_def split: promise_state.splits if_splits)
    qed
  qed
qed

lemma settle_Resolves_query: "settle q run = Resolves (q', rows, columns) \<Longrightarrow> q' = q"
  by (drule settle_Resolves) auto

lemma iresult_rejected:
  assumes "fst (executeQuery (execute D) w db q) = Rejects e"
  shows "iresult D d db rid qtext q w =
           (Resolves (fst (onRejected D d rid qtext e (snd (executeQuery (execute D) w db q)))),
            snd (onRejected D d rid qtext e (snd (executeQuery (execute D) w db q))))"
  using assms by (cases "executeQuery (execute D) w db q") (auto simp: iresult_def split: prod.splits)

lemma iresult_fulfilled:
  assumes "fst (executeQuery (execute D) w db q) = Resolves res"
  shows "iresult D d db rid qtext q w =
           (Resolves (fst (onFulfilled D d rid res (snd (executeQuery (execute D) w db q)))),
            snd (onFulfilled D d rid res (snd (executeQuery (execute D) w db q))))"
  using assms by (cases "executeQuery (execute D) w db q") (auto simp: iresult_def split: prod.splits)

lemma iresult_not_Rejects: "fst (iresult D d db rid qtext q w) \<noteq> Rejects e"
  by (cases "executeQuery (execute D) w db q"; cases "fst (executeQuery (execute D) w db q)")
     (auto simp: iresult_def split: prod.splits)

lemma onRejected_fields:
  "error (fst (onRejected D d rid qtext e w)) = Some True"
  "results (fst (onRejected D d rid qtext e w)) = []"
  "cols (fst (onRejected D d rid qtext e w)) = []"
  "rawError (fst (onRejected D d rid qtext e w)) = Some e"
  "messages (fst (onRejected D d rid qtext e w)) = [prepareMessage D (replace_newlines (message e))]"
  "r_query (fst (onRejected D d rid qtext e w)) = qtext"
  "connId (fst (onRejected D d rid qtext e w)) = getId d"
  "requestId (fst (onRejected D d rid qtext e w)) = rid"
  by (simp_all add: onRejected_def Boolean_def split: prod.splits)

lemma onFulfilled_fields:
  "error (fst (onFulfilled D d rid (q, rows, columns) w)) = None"
  "results (fst (onFulfilled D d rid (q, rows, columns) w)) = rows"
  "cols (fst (onFulfilled D d rid (q, rows, columns) w)) = map name columns"
  "rawError (fst (onFulfilled D d rid (q, rows, columns) w)) = None"
  "r_query (fst (onFulfilled D d rid (q, rows, columns) w)) = q"
  by (simp_all add: onFulfilled_def split: prod.splits)

lemma deliver_pending_append:
  "deliver bs st = Some st' \<Longrightarrow> promise st' = Pending \<Longrightarrow> deliver (bs @ bs') st = deliver bs' st'"
proof (induction bs st rule: deliver.induct)
  case (1 st)
  then show ?case by simp
next
  case (2 err rows columns bs st)
  then show ?case by (auto split: option.splits if_splits)
qed

lemma deliver_rejected:
  "promise st = Rejected e \<Longrightarrow> \<exists>st'. deliver bs st = Some st' \<and> promise st' = Rejected e"
proof (induction bs st rule: deliver.induct)
  case (1 st)
  then show ?case by simp
next
  case (2 err rows columns bs st)
  show ?case
  proof (cases "onData err rows columns st")
    case None
    with 2 show ?thesis by simp
  next
    case (Some st1)
    with 2 have "promise st1 = Rejected e"
      by (auto simp: onData_def reject_def split: option.splits)
    with 2 Some show ?thesis by simp
  qed
qed

lemma settle_data_error:
  assumes "deliver bs \<lparr>var_results = [], var_cols = [], promise = Pending\<rparr> = Some st"
    and "promise st = Pending"
  shows "settle q (Calls (bs @ Batch (Some e) rows columns # bs') completion) = Rejects e"
proof -
  have "promise (reject e st) = Rejected e"
    using assms(2) by (simp add: reject_def)
  from deliver_rejected[OF this, of bs'] obtain st' where
    st': "deliver bs' (reject e st) = Some st'" "promise st' = Rejected e" by auto
  have "deliver (bs @ Batch (Some e) rows columns # bs')
          \<lparr>var_results = [], var_cols = [], promise = Pending\<rparr> = Some st'"
    using deliver_pending_append[OF assms] st' by (simp add: onData_def)
  with st'(2) show ?thesis
    by (cases completion) (auto simp: settle_def callback_def reject_def resolve_def split: option.splits)
qed

lemma settle_completion_error:
  assumes "deliver bs \<lparr>var_results = [], var_cols = [], promise = Pending\<rparr> = Some st"
    and "promise st = Pending"
  shows "settle q (Calls bs (Some (Some e))) = Rejects e"
  using assms by (simp add: settle_def callback_def reject_def)

lemma iresult_cases:
  assumes "fst (iresult D d db rid qtext q w) = Resolves r"
  shows "(\<exists>e. fst (executeQuery (execute D) w db q) = Rejects e \<and>
              r = fst (onRejected D d rid qtext e (snd (executeQuery (execute D) w db q)))) \<or>
         (\<exists>rows columns. fst (executeQuery (execute D) w db q) = Resolves (q, rows, columns) \<and>
              r = fst (onFulfilled D d rid (q, rows, columns) (snd (executeQuery (execute D) w db q))))"
proof (cases "fst (executeQuery (execute D) w db q)")
  case (Resolves res)
  obtain q' rows columns where res: "res = (q', rows, columns)" by (cases res)
  from Resolves res have "q' = q"
    by (auto simp: executeQuery_def split: prod.splits dest: settle_Resolves_query)
  with Resolves res assms iresult_fulfilled[OF Resolves, of d rid qtext] show ?thesis by simp
next
  case (Rejects e)
  with assms iresult_rejected[OF Rejects, of d rid qtext] show ?thesis by simp
next
  case Hangs
  with assms show ?thesis
    by (cases "executeQuery (execute D) w db q") (simp add: iresult_def)
next
  case Escapes
  with assms show ?thesis
    by (cases "executeQuery (execute D) w db q") (simp add: iresult_def)
qed

subsection \<open>The loop over the statements\<close>

lemma query_loop_acc:
  "query_loop D d db rid qtext qs acc w =
     (map_outcome ((@) acc) (fst (query_loop D d db rid qtext qs [] w)),
      snd (query_loop D d db rid qtext qs [] w))"
proof (induction qs arbitrary: acc w)
  case Nil
  show ?case by simp
next
  case (Cons q qs)
  show ?case
  proof (cases "iresult D d db rid qtext q w")
    case (Pair out w1)
    show ?thesis
    proof (cases out)
      case (Resolves r)
      with Pair Cons.IH[of "acc @ [r]" w1] Cons.IH[of "[r]" w1] show ?thesis
        by (simp add: outcome.map_comp comp_def)
    qed (use Pair in simp_all)
  qed
qed

lemma query_loop_Cons_world:
  "iresult D d db rid qtext q w = (Resolves r, w1) \<Longrightarrow>
     snd (query_loop D d db rid qtext (q # qs) [] w) = snd (query_loop D d db rid qtext qs [] w1)"
  by (simp add: query_loop_acc[of D d db rid qtext qs "[r]"])

lemma query_loop_records:
  "query_loop D d db rid qtext qs [] w = (Resolves rs, w') \<Longrightarrow>
     length rs = length qs \<and>
     (\<forall>i<length qs.
        fst (iresult D d db rid qtext (qs ! i) (world_at D d db rid qtext qs i w)) = Resolves (rs ! i))"
proof (induction qs arbitrary: w rs)
  case Nil
  then show ?case by simp
next
  case (Cons q qs)
  obtain out w1 where ir: "iresult D d db rid qtext q w = (out, w1)"
    by (cases "iresult D d db rid qtext q w")
  from Cons.prems ir obtain r where out: "out = Resolves r"
    by (cases out) simp_all
  from Cons.prems ir out have "query_loop D d db rid qtext qs [r] w1 = (Resolves rs, w')"
    by simp
  then obtain rs' where rs': "query_loop D d db rid qtext qs [] w1 = (Resolves rs', w')"
    and rs: "rs = r # rs'"
    by (cases "query_loop D d db rid qtext qs [] w1"; cases "fst (query_loop D d db rid qtext qs [] w1)")
       (simp_all add: query_loop_acc[of D d db rid qtext qs "[r]"])
  note IH = Cons.IH[OF rs']
  have "fst (iresult D d db rid qtext ((q # qs) ! i) (world_at D d db rid qtext (q # qs) i w))
          = Resolves (rs ! i)" if "i < length (q # qs)" for i
  proof (cases i)
    case 0
    with ir out rs show ?thesis by (simp add: world_at_def)
  next
    case (Suc j)
    with that have j: "j < length qs" by simp
    have "world_at D d db rid qtext (q # qs) (Suc j) w = world_at D d db rid qtext qs j w1"
      using ir out by (simp add: world_at_def query_loop_Cons_world del: query_loop.simps)
    with IH j Suc rs show ?thesis by simp
  qed
  with IH rs show ?case by simp
qed

lemma iresult_settles:
  "settles (fst (executeQuery (execute D) w db q)) \<Longrightarrow>
     \<exists>r w'. iresult D d db rid qtext q w = (Resolves r, w')"
  by (cases "executeQuery (execute D) w db q"; cases "fst (executeQuery (execute D) w db q)")
     (auto simp: iresult_def settles_def split: prod.splits)

lemma query_loop_settles:
  "\<forall>w q. settles (fst (executeQuery (execute D) w db q)) \<Longrightarrow>
     \<exists>rs w'. query_loop D d db rid qtext qs acc w = (Resolves rs, w')"
proof (induction qs arbitrary: acc w)
  case Nil
  show ?case by simp
next
  case (Cons q qs)
  from Cons.prems have "settles (fst (executeQuery (execute D) w db q))"
    by simp
  from iresult_settles[OF this, of d rid qtext]
  obtain r w1 where "iresult D d db rid qtext q w = (Resolves r, w1)"
    by auto
  with Cons.IH[OF Cons.prems, of "acc @ [r]" w1] show ?case by simp
qed

lemma query_loop_not_Rejects: "fst (query_loop D d db rid qtext qs acc w) \<noteq> Rejects e"
proof (induction qs arbitrary: acc w)
  case Nil
  show ?case by simp
next
  case (Cons q qs)
  show ?case
  proof (cases "iresult D d db rid qtext q w")
    case (Pair out w1)
    with iresult_not_Rejects[of D d db rid qtext q w] Cons.IH show ?thesis
      by (cases out) simp_all
  qed
qed

lemma query_open_ok:
  "fst (open (presto_Client D) d) = Inr db \<Longrightarrow>
     query D d qtext rid w =
       (fst (query_loop D (snd (open (presto_Client D) d)) db rid qtext (statements D qtext) [] w),
        snd (open (presto_Client D) d),
        snd (query_loop D (snd (open (presto_Client D) d)) db rid qtext (statements D qtext) [] w))"
  by (cases "open (presto_Client D) d") (simp add: query_def split: prod.splits)

lemma query_open_fails:
  "fst (open (presto_Client D) d) = Inl e \<Longrightarrow>
     query D d qtext rid w = (Rejects e, snd (open (presto_Client D) d), w)"
  by (cases "open (presto_Client D) d") (simp add: query_def)

subsection \<open>The example run\<close>

lemmas example_eval =
  query_def open_def Let_def example_driver_def example_client_def example_deps_def
  example_execute_def example_text_def example_error_def example_syntax_error_def
  executeQuery_def settle_def onData_def callback_def resolve_def reject_def
  iresult_def onFulfilled_def onRejected_def toString.simps digit_def Boolean_def
  replace_newlines_def getId_def world_at_def pending_def example_records_def
  set_property_def

lemma example_settles:
  "settles (fst (executeQuery (execute example_deps) w db q))"
  by (simp add: example_eval settles_def)

lemma example_query:
  "query example_deps example_driver example_text (Some ''req'') 0
     = (Resolves example_records,
        example_driver\<lparr>connection := Some example_client, constructed := 1\<rparr>, 6)"
  by (simp add: example_eval)

subsection \<open>Result records\<close>

text \<open>
  C1. Whenever \<^verbatim>\<open>query\<close> returns a list of records, the list has one record per
  statement the parser gave for the submitted text, and the record of index \<open>i\<close> is the one
  the loop body produced for the statement of index \<open>i\<close>, in the world the statements before
  it have left. It does return a list whenever \<^verbatim>\<open>open\<close> gives a handle and the engine
  settles every execution (it neither leaves the promise pending nor feeds the data
  callback a row longer than its column list).
\<close>

theorem query_one_record_per_statement:
  "(query D d qtext rid w = (Resolves rs, d', w') \<longrightarrow>
      length rs = length (statements D qtext) \<and>
      (\<exists>db. fst (open (presto_Client D) d) = Inr db \<and>
         (\<forall>i<length (statements D qtext).
            fst (iresult D d' db rid qtext (statements D qtext ! i)
                   (world_at D d' db rid qtext (statements D qtext) i w))
              = Resolves (rs ! i)))) \<and>
   (fst (open (presto_Client D) d) = Inr db \<and>
    (\<forall>w q. settles (fst (executeQuery (execute D) w db q))) \<longrightarrow>
      (\<exists>rs w'. query D d qtext rid w = (Resolves rs, snd (open (presto_Client D) d), w')))"
proof (intro conjI impI)
  assume q: "query D d qtext rid w = (Resolves rs, d', w')"
  then obtain db where db: "fst (open (presto_Client D) d) = Inr db"
    by (cases "open (presto_Client D) d"; cases "fst (open (presto_Client D) d)")
       (auto simp: query_def)
  from q query_open_ok[OF db, of qtext rid w]
  have d': "d' = snd (open (presto_Client D) d)"
    and loop: "query_loop D d' db rid qtext (statements D qtext) [] w = (Resolves rs, w')"
    by (auto simp: prod_eq_iff)
  from query_loop_records[OF loop] db
  show "length rs = length (statements D qtext)"
    and "\<exists>db. fst (open (presto_Client D) d) = Inr db \<and>
         (\<forall>i<length (statements D qtext).
            fst (iresult D d' db rid qtext (statements D qtext ! i)
                   (world_at D d' db rid qtext (statements D qtext) i w))
              = Resolves (rs ! i))"
    by auto
next
  assume a: "fst (open (presto_Client D) d) = Inr db \<and>
    (\<forall>w q. settles (fst (executeQuery (execute D) w db q)))"
  then have db: "fst (open (presto_Client D) d) = Inr db"
    and s: "\<forall>w q. settles (fst (executeQuery (execute D) w db q))" by simp_all
  from query_loop_settles[OF s, of "snd (open (presto_Client D) d)" rid qtext "statements D qtext" "[]" w]
  obtain rs w' where
    "query_loop D (snd (open (presto_Client D) d)) db rid qtext (statements D qtext) [] w = (Resolves rs, w')"
    by auto
  with query_open_ok[OF db, of qtext rid w]
  show "\<exists>rs w'. query D d qtext rid w = (Resolves rs, snd (open (presto_Client D) d), w')"
    by simp
qed

theorem query_one_record_per_statement_witness:
  "query example_deps example_driver example_text (Some ''req'') 0
     = (Resolves example_records,
        example_driver\<lparr>connection := Some example_client, constructed := 1\<rparr>, 6) \<and>
   fst (open (presto_Client example_deps) example_driver) = Inr example_client \<and>
   (\<forall>w q. settles (fst (executeQuery (execute example_deps) w example_client q))) \<and>
   statements example_deps example_text = [''SELECT 1'', ''SELEC'', ''DROP''] \<and>
   length example_records = 3"
  using query_one_record_per_statement
          [of example_deps example_driver example_text "Some ''req''" 0 example_records
              "example_driver\<lparr>connection := Some example_client, constructed := 1\<rparr>" 6
              example_client]
        example_query example_settles
  by (simp add: example_deps_def open_def Let_def example_driver_def example_client_def
        example_records_def)

text \<open>
  C3. When the execution of a statement fails with the error \<open>e\<close>, that is, the promise of
  \<^verbatim>\<open>executeQuery\<close> is rejected with \<open>e\<close> (by the data callback or by the completion
  callback, see \<open>settle_data_error\<close> and \<open>settle_completion_error\<close>), the loop body yields a
  record with \<open>error\<close> true, no rows, no column names, \<open>rawError\<close> the error \<open>e\<close> itself,
  and one message: the text of \<open>e\<close> with every line feed replaced by a space, which so
  contains no line feed.
\<close>

theorem failed_statement_record:
  assumes "fst (executeQuery (execute D) w db q) = Rejects e"
  shows "\<exists>r w'. iresult D d db rid qtext q w = (Resolves r, w') \<and>
           error r = Some True \<and> results r = [] \<and> cols r = [] \<and> rawError r = Some e \<and>
           messages r =
             [prepareMessage D (map (\<lambda>c. if c = CHR 0x0A then CHR '' '' else c) (message e))] \<and>
           CHR 0x0A \<notin> set (map (\<lambda>c. if c = CHR 0x0A then CHR '' '' else c) (message e))"
  using iresult_rejected[OF assms, of d rid qtext]
  by (auto simp: onRejected_fields replace_newlines_def)

theorem failed_statement_record_witness:
  "fst (executeQuery (execute example_deps) 2 example_client ''SELEC'')
     = Rejects example_syntax_error \<and>
   fst (iresult example_deps example_driver example_client (Some ''req'') example_text ''SELEC'' 2)
     = Resolves (example_records ! 1) \<and>
   messages (example_records ! 1) = [''line 1:1: mismatched input SELEC''] \<and>
   fst (executeQuery (execute example_deps) 4 example_client ''DROP'') = Rejects example_error \<and>
   fst (iresult example_deps example_driver example_client (Some ''req'') example_text ''DROP'' 4)
     = Resolves (example_records ! 2)"
  using failed_statement_record
          [of example_deps 2 example_client "''SELEC''" example_syntax_error example_driver
              "Some ''req''" example_text]
        failed_statement_record
          [of example_deps 4 example_client "''DROP''" example_error example_driver
              "Some ''req''" example_text]
  by (simp add: example_eval)

text \<open>
  C10. In the list \<^verbatim>\<open>query\<close> returns, the record of a statement whose execution was
  rejected is flagged as an error and its field \<^verbatim>\<open>query\<close> is the whole submitted text;
  the record of a statement whose execution was fulfilled is not flagged and its field
  \<^verbatim>\<open>query\<close> is that statement.
\<close>

theorem record_query_field:
  assumes "query D d qtext rid w = (Resolves rs, d', w')" and "i < length rs"
  shows "\<exists>db. fst (open (presto_Client D) d) = Inr db \<and>
           (case fst (executeQuery (execute D)
                        (world_at D d' db rid qtext (statements D qtext) i w) db
                        (statements D qtext ! i)) of
              Rejects e \<Rightarrow> error (rs ! i) = Some True \<and> r_query (rs ! i) = qtext
            | Resolves res \<Rightarrow> error (rs ! i) = None \<and> r_query (rs ! i) = statements D qtext ! i
            | Hangs \<Rightarrow> False
            | Escapes \<Rightarrow> False)"
proof -
  from assms(1) obtain db where db: "fst (open (presto_Client D) d) = Inr db"
    by (cases "open (presto_Client D) d"; cases "fst (open (presto_Client D) d)")
       (auto simp: query_def)
  from assms(1) query_open_ok[OF db, of qtext rid w]
  have loop: "query_loop D d' db rid qtext (statements D qtext) [] w = (Resolves rs, w')"
    by (auto simp: prod_eq_iff)
  let ?q = "statements D qtext ! i"
  let ?w = "world_at D d' db rid qtext (statements D qtext) i w"
  from query_loop_records[OF loop] assms(2)
  have "fst (iresult D d' db rid qtext ?q ?w) = Resolves (rs ! i)" by simp
  from iresult_cases[OF this] have
    "case fst (executeQuery (execute D) ?w db ?q) of
        Rejects e \<Rightarrow> error (rs ! i) = Some True \<and> r_query (rs ! i) = qtext
      | Resolves res \<Rightarrow> error (rs ! i) = None \<and> r_query (rs ! i) = ?q
      | Hangs \<Rightarrow> False
      | Escapes \<Rightarrow> False"
    by (auto simp: onRejected_fields onFulfilled_fields)
  with db show ?thesis by blast
qed

theorem record_query_field_witness:
  "query example_deps example_driver example_text (Some ''req'') 0
     = (Resolves example_records,
        example_driver\<lparr>connection := Some example_client, constructed := 1\<rparr>, 6) \<and>
   map r_query example_records = [''SELECT 1'', example_text, example_text] \<and>
   map error example_records = [None, Some True, Some True]"
  using record_query_field
          [of example_deps example_driver example_text "Some ''req''" 0 example_records
              "example_driver\<lparr>connection := Some example_client, constructed := 1\<rparr>" 6 1]
        example_query
  by (simp add: example_records_def example_text_def)

text \<open>
  C4. \<^verbatim>\<open>query\<close> is rejected only with an error of \<^verbatim>\<open>open\<close>; the loop over the
  statements never rejects. A statement whose execution is rejected with \<open>e\<close> adds a record
  flagged as an error and carrying \<open>e\<close>, and the loop goes on with the remaining
  statements. So when \<^verbatim>\<open>open\<close> gives a handle and the engine settles every execution,
  \<^verbatim>\<open>query\<close> returns one record per statement, whichever of them failed.
\<close>

theorem statement_errors_are_contained:
  "(fst (query D d qtext rid w) = Rejects e \<longrightarrow> fst (open (presto_Client D) d) = Inl e) \<and>
   fst (query_loop D d db rid qtext qs acc w) \<noteq> Rejects e \<and>
   (fst (executeQuery (execute D) w db q) = Rejects e \<longrightarrow>
      (\<exists>r w2. error r = Some True \<and> rawError r = Some e \<and>
         query_loop D d db rid qtext (q # qs) acc w
           = query_loop D d db rid qtext qs (acc @ [r]) w2)) \<and>
   (fst (open (presto_Client D) d) = Inr db \<and>
    (\<forall>w q. settles (fst (executeQuery (execute D) w db q))) \<longrightarrow>
      (\<exists>rs w'. query D d qtext rid w = (Resolves rs, snd (open (presto_Client D) d), w') \<and>
         length rs = length (statements D qtext)))"
proof (intro conjI impI)
  assume r: "fst (query D d qtext rid w) = Rejects e"
  show "fst (open (presto_Client D) d) = Inl e"
  proof (cases "fst (open (presto_Client D) d)")
    case (Inl e')
    with r query_open_fails[OF Inl, of qtext rid w] show ?thesis by simp
  next
    case (Inr db')
    from query_open_ok[OF Inr, of qtext rid w]
    have "fst (query D d qtext rid w)
            = fst (query_loop D (snd (open (presto_Client D) d)) db' rid qtext
                     (statements D qtext) [] w)"
      by simp
    with r query_loop_not_Rejects
             [of D "snd (open (presto_Client D) d)" db' rid qtext "statements D qtext" "[]" w e]
    show ?thesis by simp
  qed
next
  show "fst (query_loop D d db rid qtext qs acc w) \<noteq> Rejects e"
    by (rule query_loop_not_Rejects)
next
  assume f: "fst (executeQuery (execute D) w db q) = Rejects e"
  let ?w1 = "snd (executeQuery (execute D) w db q)"
  from iresult_rejected[OF f, of d rid qtext]
  have "query_loop D d db rid qtext (q # qs) acc w
          = query_loop D d db rid qtext qs (acc @ [fst (onRejected D d rid qtext e ?w1)])
              (snd (onRejected D d rid qtext e ?w1))"
    by simp
  then show "\<exists>r w2. error r = Some True \<and> rawError r = Some e \<and>
         query_loop D d db rid qtext (q # qs) acc w
           = query_loop D d db rid qtext qs (acc @ [r]) w2"
    by (intro exI[of _ "fst (onRejected D d rid qtext e ?w1)"]
              exI[of _ "snd (onRejected D d rid qtext e ?w1)"])
       (simp add: onRejected_fields)
next
  assume a: "fst (open (presto_Client D) d) = Inr db \<and>
    (\<forall>w q. settles (fst (executeQuery (execute D) w db q)))"
  then have db: "fst (open (presto_Client D) d) = Inr db"
    and s: "\<forall>w q. settles (fst (executeQuery (execute D) w db q))" by simp_all
  from query_loop_settles[OF s, of "snd (open (presto_Client D) d)" rid qtext "statements D qtext" "[]" w]
  obtain rs w' where loop:
    "query_loop D (snd (open (presto_Client D) d)) db rid qtext (statements D qtext) [] w = (Resolves rs, w')"
    by auto
  from query_loop_records[OF loop] have "length rs = length (statements D qtext)" by simp
  with loop query_open_ok[OF db, of qtext rid w]
  show "\<exists>rs w'. query D d qtext rid w = (Resolves rs, snd (open (presto_Client D) d), w') \<and>
         length rs = length (statements D qtext)"
    by simp
qed

theorem statement_errors_are_contained_witness:
  "query example_deps example_driver example_text (Some ''req'') 0
     = (Resolves example_records,
        example_driver\<lparr>connection := Some example_client, constructed := 1\<rparr>, 6) \<and>
   fst (executeQuery (execute example_deps) 2 example_client ''SELEC'')
     = Rejects example_syntax_error \<and>
   query_loop example_deps example_driver example_client (Some ''req'') example_text
       [''SELEC'', ''DROP''] [] 2
     = query_loop example_deps example_driver example_client (Some ''req'') example_text
         [''DROP''] [example_records ! 1] 4 \<and>
   length example_records = length (statements example_deps example_text)"
  using statement_errors_are_contained
          [of example_deps example_driver example_text "Some ''req''" 0 example_error
              example_client "[]" "[]" ]
        statement_errors_are_contained
          [of example_deps example_driver example_text "Some ''req''" 2 example_syntax_error
              example_client "[''DROP'']" "[]" "''SELEC''"]
        example_query example_settles
  by (simp add: example_eval)

subsection \<open>Rows and columns\<close>

lemma dom_set_property:
  "dom (set_property data key v) = dom data \<union> ({key} - {''__proto__''})"
  by (simp add: set_property_def)

lemma row_forEach_dom:
  "row_forEach columns row idx data = Some data' \<Longrightarrow>
     dom data' =
       dom data \<union> (name ` set (take (length row) (drop idx columns)) - {''__proto__''})"
proof (induction row arbitrary: idx data)
  case Nil
  then show ?case by simp
next
  case (Cons v row)
  from Cons.prems have idx: "idx < length columns"
    and rec: "row_forEach columns row (Suc idx) (set_property data (name (columns ! idx)) v)
                = Some data'"
    by (simp_all split: if_splits)
  have "take (Suc (length row)) (drop idx columns)
          = columns ! idx # take (length row) (drop (Suc idx) columns)"
    using idx by (simp add: Cons_nth_drop_Suc[symmetric])
  with Cons.IH[OF rec] show ?case by (auto simp: dom_set_property)
qed

lemma row_forEach_keys:
  assumes "row_forEach columns row 0 Map.empty = Some data" and "length row = length columns"
    and "''__proto__'' \<notin> set (map name columns)"
  shows "dom data = set (map name columns)"
  using row_forEach_dom[OF assms(1)] assms(2,3) by auto

lemma rows_forEach_keys:
  "rows_forEach columns rows acc = Some acc' \<Longrightarrow>
     \<forall>row\<in>set rows. length row = length columns \<Longrightarrow>
     ''__proto__'' \<notin> set (map name columns) \<Longrightarrow>
     \<forall>r\<in>set acc. dom r = set (map name columns) \<Longrightarrow>
     \<forall>r\<in>set acc'. dom r = set (map name columns)"
proof (induction rows arbitrary: acc)
  case Nil
  then show ?case by simp
next
  case (Cons row rows)
  from Cons.prems(1) obtain data where data: "row_forEach columns row 0 Map.empty = Some data"
    and rec: "rows_forEach columns rows (acc @ [data]) = Some acc'"
    by (auto split: option.splits)
  from Cons.prems(2) have "length row = length columns" by simp
  from row_forEach_keys[OF data this Cons.prems(3)] Cons.prems(4)
  have "\<forall>r\<in>set (acc @ [data]). dom r = set (map name columns)" by simp
  from Cons.IH[OF rec _ Cons.prems(3) this] Cons.prems(2) show ?case by simp
qed

lemma deliver_keys:
  "deliver bs st = Some st' \<Longrightarrow> list_all (uniform ns) bs \<Longrightarrow>
     ''__proto__'' \<notin> set ns \<Longrightarrow>
     (\<forall>r\<in>set (var_results st). dom r = set ns) \<Longrightarrow>
     (var_results st \<noteq> [] \<longrightarrow> map name (var_cols st) = ns) \<Longrightarrow>
     (\<forall>r\<in>set (var_results st'). dom r = set ns) \<and>
     (var_results st' \<noteq> [] \<longrightarrow> map name (var_cols st') = ns)"
proof (induction bs st rule: deliver.induct)
  case (1 st)
  then show ?case by simp
next
  case (2 err rows columns bs st)
  from "2.prems"(2) have ns: "map name columns = ns"
    and len: "\<forall>row\<in>set rows. length row = length columns"
    and rest: "list_all (uniform ns) bs"
    by (simp_all add: uniform_def list_all_iff)
  from "2.prems"(3) ns have proto: "''__proto__'' \<notin> set (map name columns)"
    by simp
  show ?case
  proof (cases "onData err rows columns st")
    case None
    with "2.prems" show ?thesis by (simp split: if_splits)
  next
    case (Some st1)
    have inv: "(\<forall>r\<in>set (var_results st1). dom r = set ns) \<and>
               (var_results st1 \<noteq> [] \<longrightarrow> map name (var_cols st1) = ns)"
    proof (cases err)
      case None
      with Some obtain acc' where
        r: "rows_forEach columns rows (var_results st) = Some acc'"
        and st1: "st1 = st\<lparr>var_cols := columns, var_results := acc'\<rparr>"
        by (auto simp: onData_def split: option.splits)
      from rows_forEach_keys[OF r len proto] "2.prems"(4) ns
      have "\<forall>r\<in>set acc'. dom r = set ns" by simp
      with st1 ns show ?thesis by simp
    next
      case (Some e)
      with \<open>onData err rows columns st = Some st1\<close> have "st1 = reject e st"
        by (simp add: onData_def)
      with "2.prems"(4,5) show ?thesis by (simp add: reject_def)
    qed
    from "2.prems"(1) Some have "deliver bs st1 = Some st'" by simp
    from "2.IH"[OF Some this rest "2.prems"(3)] inv show ?thesis by simp
  qed
qed

text \<open>
  Where the driver keeps the invariant of the result tuple: in a successful execution in
  which every data batch carries the same column names, none of them \<^verbatim>\<open>__proto__\<close>, and
  every raw row has as many values as its batch has column descriptors, every row mapping
  of the resolved result has as its key set the set of the column names reported, in the
  result tuple of \<^verbatim>\<open>executeQuery\<close> and in the record \<^verbatim>\<open>query\<close> makes of it.
\<close>

lemma rows_keyed_by_reported_columns:
  assumes "fst (execute D w db q) = Calls batches completion"
    and "list_all (uniform ns) batches"
    and "''__proto__'' \<notin> set ns"
    and "fst (executeQuery (execute D) w db q) = Resolves (q', rows, columns)"
  shows "(\<forall>r\<in>set rows. dom r = set (map name columns)) \<and>
         (\<exists>r w'. iresult D d db rid qtext q w = (Resolves r, w') \<and>
            cols r = map name columns \<and> results r = rows \<and>
            (\<forall>row\<in>set (results r). dom row = set (cols r)))"
proof -
  from assms(1,4) have "settle q (Calls batches completion) = Resolves (q', rows, columns)"
    by (simp add: executeQuery_def split: prod.splits)
  from settle_Resolves[OF this] obtain st where
    st: "deliver batches \<lparr>var_results = [], var_cols = [], promise = Pending\<rparr> = Some st"
    and res: "rows = var_results st" "columns = var_cols st"
    by auto
  from deliver_keys[OF st assms(2,3)] res
  have keys: "\<forall>r\<in>set rows. dom r = set (map name columns)"
    by (cases "rows = []") simp_all
  from iresult_fulfilled[OF assms(4), of d rid qtext]
  have "iresult D d db rid qtext q w =
          (Resolves (fst (onFulfilled D d rid (q', rows, columns) (snd (executeQuery (execute D) w db q)))),
           snd (onFulfilled D d rid (q', rows, columns) (snd (executeQuery (execute D) w db q))))" .
  with keys show ?thesis by (simp add: onFulfilled_fields)
qed

lemma rows_keyed_by_reported_columns_example:
  "fst (execute example_deps 0 example_client ''SELECT 1'')
     = Calls [Batch None [[1]] [\<lparr>name = ''_col0'', data_type = ''integer''\<rparr>]] (Some None) \<and>
   list_all (uniform [''_col0''])
     [Batch None [[1::nat]] [\<lparr>name = ''_col0'', data_type = ''integer''\<rparr>]] \<and>
   ''__proto__'' \<notin> set [''_col0''] \<and>
   fst (executeQuery (execute example_deps) 0 example_client ''SELECT 1'')
     = Resolves (''SELECT 1'', [[''_col0'' \<mapsto> 1]],
                 [\<lparr>name = ''_col0'', data_type = ''integer''\<rparr>]) \<and>
   dom [''_col0'' \<mapsto> (1::nat)] = set (map name [\<lparr>name = ''_col0'', data_type = ''integer''\<rparr>])"
  using rows_keyed_by_reported_columns
          [of example_deps 0 example_client "''SELECT 1''"
              "[Batch None [[1]] [\<lparr>name = ''_col0'', data_type = ''integer''\<rparr>]]" "Some None"
              "[''_col0'']" "''SELECT 1''" "[[''_col0'' \<mapsto> 1]]"
              "[\<lparr>name = ''_col0'', data_type = ''integer''\<rparr>]"]
  by (simp add: example_eval uniform_def)

text \<open>
  C2. The claim is that after every successful execution each row mapping of the resolved
  result has as its key set the set of the column names reported. The driver breaks it for
  a column named \<^verbatim>\<open>__proto__\<close>, which is a valid alias: the engine answers
  \<^verbatim>\<open>SELECT 1 AS __proto__\<close> with one batch of the one row \<^verbatim>\<open>[1]\<close> under the one
  descriptor \<^verbatim>\<open>__proto__\<close> and completes without error. The execution succeeds, the row
  the driver has built has no key at all, and the column it reports is \<^verbatim>\<open>__proto__\<close>.
\<close>

theorem executeQuery_proto_column_loses_key:
  "fst (executeQuery
          (\<lambda>w db q.
             (Calls [Batch None [[1::nat]] [\<lparr>name = ''__proto__'', data_type = ''integer''\<rparr>]]
                    (Some None), w))
          () example_client ''SELECT 1 AS __proto__'')
     = Resolves (''SELECT 1 AS __proto__'', [Map.empty],
                 [\<lparr>name = ''__proto__'', data_type = ''integer''\<rparr>]) \<and>
   dom (Map.empty :: nat Row)
     \<noteq> set (map name [\<lparr>name = ''__proto__'', data_type = ''integer''\<rparr>])"
  by (simp add: executeQuery_def settle_def onData_def callback_def resolve_def pending_def
        set_property_def)

section \<open>Properties of the explorer adapter\<close>

text \<open>
  C9. For an item tagged \<open>SCHEMA\<close>, \<^verbatim>\<open>getChildrenForItem\<close> returns exactly the two
  resource groups labelled Tables and Views, with child types \<open>TABLE\<close> and \<open>VIEW\<close>, and
  runs no catalog request. For an item whose tag is none of connection, connected
  connection, schema, table, view and resource group it returns the empty list.
\<close>

theorem getChildrenForItem_schema_and_default:
  "(type item = SCHEMA \<longrightarrow>
      getChildrenForItem queryResults d item parent =
        Resolves
          [\<lparr>label = ''Tables'', type = RESOURCE_GROUP, iconId = Some ''folder'',
            childType = Some TABLE\<rparr>,
           \<lparr>label = ''Views'', type = RESOURCE_GROUP, iconId = Some ''folder'',
            childType = Some VIEW\<rparr>]) \<and>
   (type item \<notin> {CONNECTION, CONNECTED_CONNECTION, SCHEMA, TABLE, VIEW, RESOURCE_GROUP} \<longrightarrow>
      getChildrenForItem queryResults d item parent = Resolves [])"
  by (cases "type item") (simp_all add: getChildrenForItem_def)

theorem getChildrenForItem_schema_and_default_witness:
  "getChildrenForItem (\<lambda>_. Hangs) example_driver
     \<lparr>label = ''default'', type = SCHEMA, iconId = None, childType = None\<rparr> None
     = Resolves
         [\<lparr>label = ''Tables'', type = RESOURCE_GROUP, iconId = Some ''folder'',
           childType = Some TABLE\<rparr>,
          \<lparr>label = ''Views'', type = RESOURCE_GROUP, iconId = Some ''folder'',
           childType = Some VIEW\<rparr>] \<and>
   getChildrenForItem (\<lambda>_. Hangs) example_driver
     \<lparr>label = ''id'', type = COLUMN, iconId = None, childType = None\<rparr> None
     = Resolves []"
  using getChildrenForItem_schema_and_default
          [of "\<lparr>label = ''default'', type = SCHEMA, iconId = None, childType = None\<rparr>"
              "\<lambda>_. Hangs" example_driver None]
        getChildrenForItem_schema_and_default
          [of "\<lparr>label = ''id'', type = COLUMN, iconId = None, childType = None\<rparr>"
              "\<lambda>_. Hangs" example_driver None]
  by simp

section \<open>Properties of the statement parser\<close>

lemma pieces_nonempty: "pieces m s \<noteq> []"
  by (cases s) (auto split: list.splits)

lemma join_Cons_hd: "join sep ((c # p) # ps) = c # join sep (p # ps)"
  by (cases ps) simp_all

lemma join_pieces: "join '';'' (pieces m s) = s"
proof (induction s arbitrary: m)
  case Nil
  show ?case by simp
next
  case (Cons c cs)
  show ?case
  proof (cases "separates m c")
    case True
    obtain p ps where "pieces Code cs = p # ps"
      using pieces_nonempty[of Code cs] by (cases "pieces Code cs") auto
    with True Cons.IH[of Code] show ?thesis by (simp add: separates_def)
  next
    case False
    obtain p ps where "pieces (lex_step m c) cs = p # ps"
      using pieces_nonempty[of "lex_step m c" cs] by (cases "pieces (lex_step m c) cs") auto
    with False Cons.IH[of "lex_step m c"] show ?thesis by (simp add: join_Cons_hd)
  qed
qed

lemma length_pieces: "length (pieces m s) = Suc (separators m s)"
proof (induction s arbitrary: m)
  case Nil
  show ?case by simp
next
  case (Cons c cs)
  show ?case
  proof (cases "separates m c")
    case True
    with Cons.IH[of Code] show ?thesis by simp
  next
    case False
    obtain p ps where "pieces (lex_step m c) cs = p # ps"
      using pieces_nonempty[of "lex_step m c" cs] by (cases "pieces (lex_step m c) cs") auto
    with False Cons.IH[of "lex_step m c"] show ?thesis by simp
  qed
qed

lemma pieces_snoc:
  "pieces m (s @ [c]) =
     (if separates (lex_end m s) c then pieces m s @ [[]]
      else butlast (pieces m s) @ [last (pieces m s) @ [c]])"
proof (induction s arbitrary: m)
  case Nil
  show ?case by simp
next
  case (Cons a s)
  show ?case
  proof (cases "separates m a")
    case True
    with Cons.IH[of Code] pieces_nonempty[of Code s] show ?thesis by simp
  next
    case False
    obtain p ps where p: "pieces (lex_step m a) s = p # ps"
      using pieces_nonempty[of "lex_step m a" s] by (cases "pieces (lex_step m a) s") auto
    show ?thesis
    proof (cases "separates (lex_end (lex_step m a) s) c")
      case True
      with False p Cons.IH[of "lex_step m a"] show ?thesis by simp
    next
      case sep: False
      with False p Cons.IH[of "lex_step m a"] show ?thesis
        by (cases ps) (auto simp: butlast_append split: list.splits if_splits)
    qed
  qed
qed

lemma dropWhile_id: "xs = [] \<or> \<not> P (hd xs) \<Longrightarrow> dropWhile P xs = xs"
  by (cases xs) auto

lemma trim_ends:
  assumes "trim s \<noteq> []"
  shows "\<not> whitespace (hd (trim s))" and "\<not> whitespace (last (trim s))"
proof -
  let ?t = "rev (dropWhile whitespace (rev s))"
  have unfold: "trim s = dropWhile whitespace ?t" by (simp add: trim_def)
  have t: "?t \<noteq> []"
  proof
    assume "?t = []"
    with unfold have "trim s = []" by simp
    with assms show False by simp
  qed
  from assms show "\<not> whitespace (hd (trim s))"
    unfolding trim_def by (rule hd_dropWhile)
  have "\<not> whitespace (last ?t)"
    using t by (simp add: last_rev hd_dropWhile)
  moreover have "?t = takeWhile whitespace ?t @ trim s"
    by (simp add: trim_def)
  then have "last ?t = last (trim s)"
    using assms by (metis last_appendR)
  ultimately show "\<not> whitespace (last (trim s))" by simp
qed

lemma trim_idem: "trim (trim s) = trim s"
proof (cases "trim s = []")
  case True
  have "trim [] = []" by (simp add: trim_def)
  with True show ?thesis by simp
next
  case False
  from trim_ends[OF False] False have "dropWhile whitespace (rev (trim s)) = rev (trim s)"
    by (intro dropWhile_id) (simp add: hd_rev)
  moreover from trim_ends[OF False] have "dropWhile whitespace (trim s) = trim s"
    by (intro dropWhile_id) simp
  ultimately show ?thesis by (simp add: trim_def[of "trim s"])
qed

lemma trim_whitespace:
  assumes "\<forall>c\<in>set s. whitespace c"
  shows "trim s = []"
proof -
  from assms have inner: "dropWhile whitespace (rev s) = []"
    by (simp add: dropWhile_eq_Nil_conv)
  show ?thesis unfolding trim_def inner by simp
qed

lemma pieces_whitespace: "\<forall>c\<in>set s. whitespace c \<Longrightarrow> pieces m s = [s]"
proof (induction s arbitrary: m)
  case Nil
  show ?case by simp
next
  case (Cons c cs)
  from Cons.prems have "\<not> separates m c"
    by (auto simp: separates_def whitespace_def)
  with Cons show ?case by simp
qed

lemmas parser_eval =
  QueryParser_statements_def trim_def whitespace_def separates_def lex_step_def in_code_def

text \<open>
  C5. Against the parser as the specification describes it: every statement it gives is
  non-empty and trimmed (trimming it again changes nothing, and it neither starts nor ends
  with white space). The statements are the trimmed non-empty parts of the text, in their
  order, where the parts joined by semicolons give back the text and there is exactly one
  part more than there are semicolons outside literals and comments; so a text without
  such a semicolon gives at most one statement. A semicolon appended to a text that ends
  outside literals and comments adds no statement. A text of white space only, and the
  empty text, give no statement. \<^verbatim>\<open>SELECT ';' AS x\<close> is one statement, and
  \<^verbatim>\<open>SELECT 1;\<close> gives the one statement \<^verbatim>\<open>SELECT 1\<close>.
\<close>

theorem statements_contract:
  "(\<forall>s\<in>set (QueryParser_statements q).
      s \<noteq> [] \<and> trim s = s \<and> \<not> whitespace (hd s) \<and> \<not> whitespace (last s)) \<and>
   QueryParser_statements q = filter (\<lambda>s. s \<noteq> []) (map trim (pieces Code q)) \<and>
   join '';'' (pieces Code q) = q \<and>
   length (pieces Code q) = Suc (separators Code q) \<and>
   length (QueryParser_statements q) \<le> Suc (separators Code q) \<and>
   (separators Code q = 0 \<longrightarrow> QueryParser_statements q = filter (\<lambda>s. s \<noteq> []) [trim q]) \<and>
   (in_code (lex_end Code q) \<longrightarrow>
      QueryParser_statements (q @ '';'') = QueryParser_statements q) \<and>
   ((\<forall>c\<in>set q. whitespace c) \<longrightarrow> QueryParser_statements q = []) \<and>
   QueryParser_statements [] = [] \<and>
   QueryParser_statements ''SELECT ';' AS x'' = [''SELECT ';' AS x''] \<and>
   QueryParser_statements ''SELECT 1;'' = [''SELECT 1'']"
proof (intro conjI)
  show "\<forall>s\<in>set (QueryParser_statements q).
      s \<noteq> [] \<and> trim s = s \<and> \<not> whitespace (hd s) \<and> \<not> whitespace (last s)"
    using trim_ends trim_idem by (auto simp: QueryParser_statements_def)
  show "QueryParser_statements q = filter (\<lambda>s. s \<noteq> []) (map trim (pieces Code q))"
    by (simp add: QueryParser_statements_def)
  show "join '';'' (pieces Code q) = q" by (rule join_pieces)
  show len: "length (pieces Code q) = Suc (separators Code q)" by (rule length_pieces)
  have "length (QueryParser_statements q) \<le> length (pieces Code q)"
    unfolding QueryParser_statements_def
    using length_filter_le[of "\<lambda>s. s \<noteq> []" "map trim (pieces Code q)"] by simp
  with len show "length (QueryParser_statements q) \<le> Suc (separators Code q)" by simp
  show "separators Code q = 0 \<longrightarrow> QueryParser_statements q = filter (\<lambda>s. s \<noteq> []) [trim q]"
  proof
    assume "separators Code q = 0"
    with len obtain p where p: "pieces Code q = [p]"
      by (cases "pieces Code q") auto
    with join_pieces[of Code q] have "p = q" by simp
    with p show "QueryParser_statements q = filter (\<lambda>s. s \<noteq> []) [trim q]"
      by (simp add: QueryParser_statements_def)
  qed
  show "in_code (lex_end Code q) \<longrightarrow>
      QueryParser_statements (q @ '';'') = QueryParser_statements q"
    by (simp add: QueryParser_statements_def pieces_snoc separates_def trim_def)
  show "(\<forall>c\<in>set q. whitespace c) \<longrightarrow> QueryParser_statements q = []"
    by (simp add: QueryParser_statements_def pieces_whitespace trim_whitespace)
  show "QueryParser_statements [] = []"
    by (simp add: QueryParser_statements_def trim_def)
  show "QueryParser_statements ''SELECT ';' AS x'' = [''SELECT ';' AS x'']"
    by (simp add: parser_eval)
  show "QueryParser_statements ''SELECT 1;'' = [''SELECT 1'']"
    by (simp add: parser_eval)
qed

theorem statements_contract_witness:
  "QueryParser_statements ''SELECT 1'' = [''SELECT 1''] \<and>
   \<not> whitespace (hd ''SELECT 1'') \<and>
   separators Code ''SELECT 1'' = 0 \<and>
   in_code (lex_end Code ''SELECT 1'') \<and>
   QueryParser_statements (''SELECT 1'' @ '';'') = [''SELECT 1''] \<and>
   QueryParser_statements [CHR '' '', CHR 0x0A, CHR 0x09] = []"
proof -
  note one = statements_contract [of "''SELECT 1''"]
  note blank = statements_contract [of "[CHR '' '', CHR 0x0A, CHR 0x09]"]
  have stmts: "QueryParser_statements ''SELECT 1'' = [''SELECT 1'']"
    by (simp add: parser_eval)
  have seps: "separators Code ''SELECT 1'' = 0"
    by (simp add: separates_def lex_step_def in_code_def)
  have code: "in_code (lex_end Code ''SELECT 1'')"
    by (simp add: separates_def lex_step_def in_code_def)
  have ws: "\<forall>c\<in>set [CHR '' '', CHR 0x0A, CHR 0x09]. whitespace c"
    by (simp add: whitespace_def)
  from one [THEN conjunct1] stmts have "\<not> whitespace (hd ''SELECT 1'')"
    by simp
  moreover from one [THEN conjunct2, THEN conjunct2, THEN conjunct2, THEN conjunct2,
                     THEN conjunct2, THEN conjunct2, THEN conjunct1] code stmts
  have "QueryParser_statements (''SELECT 1'' @ '';'') = [''SELECT 1'']"
    by simp
  moreover from blank [THEN conjunct2, THEN conjunct2, THEN conjunct2, THEN conjunct2,
                       THEN conjunct2, THEN conjunct2, THEN conjunct2, THEN conjunct1] ws
  have "QueryParser_statements [CHR '' '', CHR 0x0A, CHR 0x09] = []"
    by blast
  ultimately show ?thesis using stmts seps code by simp
qed

end
